theory Spec2Isabelle
  imports Complex_Main "HOL-Library.AList"
begin

section \<open>Strings\<close>

text \<open>
  A JavaScript string is a sequence of code units; the model uses \<^typ>\<open>string\<close>, read as the
  code units below 256. The functions follow \<^verbatim>\<open>String.prototype\<close>: \<^verbatim>\<open>startsWith\<close>,
  \<^verbatim>\<open>includes\<close>, \<^verbatim>\<open>split\<close> on a one-character separator, and \<^verbatim>\<open>trim\<close>.
\<close>

definition startsWith :: "string \<Rightarrow> string \<Rightarrow> bool" where
  "startsWith s p = (take (length p) s = p)"

fun str_includes :: "string \<Rightarrow> string \<Rightarrow> bool" where
  "str_includes [] p = (p = [])"
| "str_includes (c # cs) p = (startsWith (c # cs) p \<or> str_includes cs p)"

text \<open>\<^verbatim>\<open>s.split(sep)\<close>: never empty, \<^verbatim>\<open>"".split(" ")\<close> is \<^verbatim>\<open>[""]\<close>.\<close>

fun str_split :: "char \<Rightarrow> string \<Rightarrow> string list" where
  "str_split sep [] = [[]]"
| "str_split sep (c # cs) =
     (if c = sep then [] # str_split sep cs
      else (case str_split sep cs of
              [] \<Rightarrow> [[c]]
            | w # ws \<Rightarrow> (c # w) # ws))"

text \<open>
  The white space and line terminators of ECMAScript that are below 256:
  TAB, LF, VT, FF, CR, SP and NBSP.
\<close>

definition is_whitespace :: "char \<Rightarrow> bool" where
  "is_whitespace c = (of_char c \<in> {9, 10, 11, 12, 13, 32, 160 :: nat})"

definition trimStart :: "string \<Rightarrow> string" where
  "trimStart s = dropWhile is_whitespace s"

definition trimEnd :: "string \<Rightarrow> string" where
  "trimEnd s = rev (dropWhile is_whitespace (rev s))"

text \<open>\<^verbatim>\<open>s.trim()\<close> removes white space from both ends.\<close>

definition trim :: "string \<Rightarrow> string" where
  "trim s = trimEnd (trimStart s)"

text \<open>Template literals print a number in decimal.\<close>

definition digit_char :: "nat \<Rightarrow> char" where
  "digit_char d = char_of (48 + d)"

fun show_nat :: "nat \<Rightarrow> string" where
  "show_nat n = (if n < 10 then [digit_char n] else show_nat (n div 10) @ [digit_char (n mod 10)])"

definition show_int :: "int \<Rightarrow> string" where
  "show_int i = (if i < 0 then CHR ''-'' # show_nat (nat (- i)) else show_nat (nat i))"

section \<open>Data model\<close>

text \<open>
  Numbers are milliseconds, process ids and exit codes, modelled as integers; references
  into the store are addresses.
\<close>

type_synonym addr = nat

text \<open>\<^verbatim>\<open>ExecOptions\<close>: every field is optional.\<close>

record ExecOptions =
  cwd :: "string option"
  timeout :: "int option"
  env :: "(string \<times> string) list option"
  shell :: "bool option"
  args :: "string list option"

record ExecResult =
  exitCode :: int
  stdout :: string
  stderr :: string
  duration :: int
  killed :: bool
  command :: string
  pid :: "nat option"

record ValidationResult =
  valid :: bool
  reason :: string
  suggestions :: "string list"

text \<open>
  \<^verbatim>\<open>ShellExecProps\<close>. \<^verbatim>\<open>executionHistory\<close> is a reference to an array in the store;
  \<^verbatim>\<open>runningProcesses\<close> is a \<^verbatim>\<open>Map\<close> from process id to the child process, kept as its
  list of entries in insertion order, the child being named by the number of the
  call that spawned it.
\<close>

record ShellExecProps =
  defaultTimeout :: int
  defaultCwd :: string
  allowedCommands :: "string list"
  blockedCommands :: "string list"
  maxConcurrent :: int
  executionHistory :: addr
  runningProcesses :: "(nat \<times> nat) list"

text \<open>
  The store: arrays of references and result objects, each addressed by its index; an
  allocation appends. \<^verbatim>\<open>process_env\<close> is the ambient \<^verbatim>\<open>process.env\<close>.
\<close>

datatype signal = SIGTERM | SIGKILL

text \<open>
  The part of Node's \<^verbatim>\<open>ChildProcess\<close> that the unit reads: \<^verbatim>\<open>pid\<close> (undefined when
  the spawn failed) and \<^verbatim>\<open>killed\<close>, which Node sets once \<^verbatim>\<open>kill()\<close> has handed a signal to
  the operating system; it does not say that the process has ended. \<^verbatim>\<open>kill_calls\<close> records
  every call of \<^verbatim>\<open>kill\<close> on the child, in order.
\<close>

record ChildProcess =
  child_pid :: "nat option"
  child_killed :: bool
  kill_calls :: "signal list"

definition child_kill :: "signal \<Rightarrow> bool \<Rightarrow> ChildProcess \<Rightarrow> ChildProcess" where
  "child_kill sig accepted c =
     c\<lparr>kill_calls := kill_calls c @ [sig], child_killed := (child_killed c \<or> accepted)\<rparr>"

record StreamOptions = ExecOptions +
  onStdout :: bool
  onStderr :: bool
  onExit :: bool

datatype callback = OnStdout string | OnStderr string | OnExit int

record StreamResult =
  sr_exitCode :: int
  sr_duration :: int
  sr_killed :: bool
  sr_command :: string
  sr_pid :: "nat option"

record SpawnRequest =
  sp_cmd :: string
  sp_args :: "string list"
  sp_cwd :: string
  sp_env :: "(string \<times> string) list"
  sp_shell :: bool

text \<open>A timer made by \<^verbatim>\<open>setTimeout\<close> with its delay in milliseconds.\<close>

datatype timer = Unset | Armed int | Fired | Cleared

definition clearTimeout :: "timer \<Rightarrow> timer" where
  "clearTimeout t = (case t of Armed d \<Rightarrow> Cleared | _ \<Rightarrow> t)"

text \<open>The promise returned by a call; \<^verbatim>\<open>exec\<close> resolves with a reference to its result object.\<close>

datatype outcome = Pending | Resolved addr | ResolvedStream StreamResult | Rejected string

definition settle :: "outcome \<Rightarrow> outcome \<Rightarrow> outcome" where
  "settle old new = (if old = Pending then new else old)"

datatype flow_kind = Exec | Stream

text \<open>
  \<^verbatim>\<open>Validated\<close>: an \<^verbatim>\<open>exec\<close> call suspended at \<^verbatim>\<open>await this.validate(command)\<close>;
  \<^verbatim>\<open>Running\<close>: the promise executor has run, the child exists and its handlers are attached;
  \<^verbatim>\<open>Aborted\<close>: \<^verbatim>\<open>exec\<close> threw on the validation result.
\<close>

datatype phase = Validated | Running | Aborted

text \<open>One call of \<^verbatim>\<open>exec\<close> or \<^verbatim>\<open>stream\<close> with the variables of its closure.\<close>

record flow =
  f_kind :: flow_kind
  f_phase :: phase
  f_command :: string
  f_startTime :: int
  f_cwd :: string
  f_timeout :: int
  f_env :: "(string \<times> string) list option"
  f_shell :: "bool option"
  f_onStdout :: bool
  f_onStderr :: bool
  f_onExit :: bool
  f_child :: ChildProcess
  f_stdout :: string
  f_stderr :: string
  f_killed :: bool
  f_timeoutHandle :: timer
  f_forceTimer :: timer
  f_outcome :: outcome
  f_calls :: "callback list"

record world =
  props :: ShellExecProps
  process_env :: "(string \<times> string) list"
  arrays :: "addr list list"
  objects :: "ExecResult list"
  flows :: "flow list"
  spawns :: "SpawnRequest list"

section \<open>JavaScript idioms\<close>

text \<open>\<^verbatim>\<open>a || b\<close>: \<^verbatim>\<open>undefined\<close>, the empty string and 0 are falsy.\<close>

definition or_str :: "string option \<Rightarrow> string \<Rightarrow> string" where
  "or_str a b = (case a of None \<Rightarrow> b | Some s \<Rightarrow> if s = [] then b else s)"

definition or_num :: "int option \<Rightarrow> int \<Rightarrow> int" where
  "or_num a b = (case a of None \<Rightarrow> b | Some n \<Rightarrow> if n = 0 then b else n)"

definition or_list :: "'a list option \<Rightarrow> 'a list \<Rightarrow> 'a list" where
  "or_list a b = (case a of None \<Rightarrow> b | Some l \<Rightarrow> l)"

text \<open>\<^verbatim>\<open>if (child.pid)\<close>\<close>

definition truthy_pid :: "nat option \<Rightarrow> bool" where
  "truthy_pid p = (case p of None \<Rightarrow> False | Some n \<Rightarrow> n \<noteq> 0)"

text \<open>\<^verbatim>\<open>{ ...process.env, ...options.env }\<close>\<close>

definition merge_env :: "(string \<times> string) list \<Rightarrow> (string \<times> string) list option
    \<Rightarrow> (string \<times> string) list" where
  "merge_env base over =
     (case over of None \<Rightarrow> base | Some e \<Rightarrow> fold (\<lambda>(k, v). AList.update k v) e base)"

section \<open>create\<close>

record ShellExecConfig =
  cfg_defaultTimeout :: "int option"
  cfg_defaultCwd :: "string option"
  cfg_allowedCommands :: "string list option"
  cfg_blockedCommands :: "string list option"
  cfg_maxConcurrent :: "int option"

definition create :: "string \<Rightarrow> (string \<times> string) list \<Rightarrow> ShellExecConfig \<Rightarrow> world" where
  "create process_cwd penv config =
     \<lparr>props =
        \<lparr>defaultTimeout = or_num (cfg_defaultTimeout config) 30000,
         defaultCwd = or_str (cfg_defaultCwd config) process_cwd,
         allowedCommands = or_list (cfg_allowedCommands config)
           [''npm'', ''tsc'', ''node'', ''git'', ''echo'', ''ls'', ''pwd'', ''cat'', ''grep''],
         blockedCommands = or_list (cfg_blockedCommands config)
           [''rm -rf'', ''sudo'', ''su'', ''dd'', ''mkfs'', ''fdisk''],
         maxConcurrent = or_num (cfg_maxConcurrent config) 5,
         executionHistory = 0,
         runningProcesses = []\<rparr>,
      process_env = penv,
      arrays = [[]],
      objects = [],
      flows = [],
      spawns = []\<rparr>"

section \<open>validate\<close>

definition commandBase :: "string \<Rightarrow> string" where
  "commandBase cmd = hd (str_split CHR '' '' cmd)"

definition isAllowed :: "string list \<Rightarrow> string \<Rightarrow> bool" where
  "isAllowed allowed cmd =
     list_ex (\<lambda>a. commandBase cmd = a \<or> startsWith cmd (a @ '' '')) allowed"

definition validate :: "ShellExecProps \<Rightarrow> string \<Rightarrow> ValidationResult" where
  "validate p cmd =
     (case find (\<lambda>blocked. str_includes cmd blocked) (blockedCommands p) of
        Some blocked \<Rightarrow>
          \<lparr>valid = False,
           reason = ''Command contains blocked pattern: '' @ blocked,
           suggestions = [''Use safer alternatives to '' @ blocked]\<rparr>
      | None \<Rightarrow>
          if length (allowedCommands p) > 0 \<and> \<not> isAllowed (allowedCommands p) cmd then
            \<lparr>valid = False,
             reason = ''Command not in allowed list: '' @ commandBase cmd,
             suggestions = take 3 (allowedCommands p)\<rparr>
          else if int (length (runningProcesses p)) \<ge> maxConcurrent p then
            \<lparr>valid = False,
             reason = ''Maximum concurrent processes reached: '' @ show_int (maxConcurrent p),
             suggestions = [''Wait for running processes to complete'',
                            ''Use killAll() to terminate running processes'']\<rparr>
          else
            \<lparr>valid = True,
             reason = ''Command passed all safety checks'',
             suggestions = []\<rparr>)"

section \<open>exec and stream\<close>

definition unit_id :: string where
  "unit_id = ''shell-exec''"

definition new_child :: "nat option \<Rightarrow> ChildProcess" where
  "new_child p = \<lparr>child_pid = p, child_killed = False, kill_calls = []\<rparr>"

definition register :: "nat option \<Rightarrow> nat \<Rightarrow> ShellExecProps \<Rightarrow> ShellExecProps" where
  "register p fid pr =
     (if truthy_pid p then pr\<lparr>runningProcesses := AList.update (the p) fid (runningProcesses pr)\<rparr>
      else pr)"

definition deregister :: "nat option \<Rightarrow> ShellExecProps \<Rightarrow> ShellExecProps" where
  "deregister p pr =
     (if truthy_pid p then pr\<lparr>runningProcesses := AList.delete (the p) (runningProcesses pr)\<rparr>
      else pr)"

definition spawn_request :: "world \<Rightarrow> flow \<Rightarrow> SpawnRequest" where
  "spawn_request w f =
     \<lparr>sp_cmd = hd (str_split CHR '' '' (f_command f)),
      sp_args = tl (str_split CHR '' '' (f_command f)),
      sp_cwd = f_cwd f,
      sp_env = merge_env (process_env w) (f_env f),
      sp_shell = (f_shell f \<noteq> Some False)\<rparr>"

text \<open>
  \<^verbatim>\<open>exec\<close> up to its \<^verbatim>\<open>await\<close>: the options are resolved and the command is validated; an
  invalid command makes the call throw. \<^verbatim>\<open>now\<close> is \<^verbatim>\<open>Date.now()\<close>.
\<close>

definition exec_call :: "string \<Rightarrow> ExecOptions \<Rightarrow> int \<Rightarrow> world \<Rightarrow> world" where
  "exec_call cmd options now w =
     (let validation = validate (props w) cmd;
          f = \<lparr>f_kind = Exec,
               f_phase = (if valid validation then Validated else Aborted),
               f_command = cmd,
               f_startTime = now,
               f_cwd = or_str (cwd options) (defaultCwd (props w)),
               f_timeout = or_num (timeout options) (defaultTimeout (props w)),
               f_env = env options,
               f_shell = shell options,
               f_onStdout = False, f_onStderr = False, f_onExit = False,
               f_child = new_child None,
               f_stdout = [], f_stderr = [], f_killed = False,
               f_timeoutHandle = Unset, f_forceTimer = Unset,
               f_outcome = (if valid validation then Pending
                            else Rejected (''['' @ unit_id @ ''] Command blocked: '' @ reason validation)),
               f_calls = []\<rparr>
      in w\<lparr>flows := flows w @ [f]\<rparr>)"

text \<open>
  The rest of \<^verbatim>\<open>exec\<close>, run when the awaited validation resumes: the promise executor
  spawns the child (whose \<^verbatim>\<open>pid\<close> the operating system decides), registers it, and starts
  the timeout.
\<close>

definition exec_spawn :: "nat \<Rightarrow> nat option \<Rightarrow> world \<Rightarrow> world" where
  "exec_spawn fid p w =
     (let f = flows w ! fid
      in w\<lparr>spawns := spawns w @ [spawn_request w f],
           props := register p fid (props w),
           flows := (flows w)[fid := f\<lparr>f_phase := Running,
                                        f_child := new_child p,
                                        f_stdout := [], f_stderr := [], f_killed := False,
                                        f_timeoutHandle := Armed (f_timeout f)\<rparr>]\<rparr>)"

text \<open>\<^verbatim>\<open>stream\<close>: the promise executor runs within the call.\<close>

definition stream :: "string \<Rightarrow> StreamOptions \<Rightarrow> int \<Rightarrow> nat option \<Rightarrow> world \<Rightarrow> world" where
  "stream cmd options now p w =
     (let fid = length (flows w);
          f = \<lparr>f_kind = Stream,
               f_phase = Running,
               f_command = cmd,
               f_startTime = now,
               f_cwd = or_str (cwd options) (defaultCwd (props w)),
               f_timeout = or_num (timeout options) (defaultTimeout (props w)),
               f_env = env options,
               f_shell = shell options,
               f_onStdout = onStdout options, f_onStderr = onStderr options,
               f_onExit = onExit options,
               f_child = new_child p,
               f_stdout = [], f_stderr = [], f_killed = False,
               f_timeoutHandle = Armed (or_num (timeout options) (defaultTimeout (props w))),
               f_forceTimer = Unset,
               f_outcome = Pending,
               f_calls = []\<rparr>
      in w\<lparr>spawns := spawns w @ [spawn_request w f],
           props := register p fid (props w),
           flows := flows w @ [f]\<rparr>)"

subsection \<open>The handlers of a running call\<close>

definition on_stdout :: "string \<Rightarrow> flow \<Rightarrow> flow" where
  "on_stdout data f =
     (case f_kind f of
        Exec \<Rightarrow> f\<lparr>f_stdout := f_stdout f @ data\<rparr>
      | Stream \<Rightarrow> if f_onStdout f then f\<lparr>f_calls := f_calls f @ [OnStdout data]\<rparr> else f)"

definition on_stderr :: "string \<Rightarrow> flow \<Rightarrow> flow" where
  "on_stderr data f =
     (case f_kind f of
        Exec \<Rightarrow> f\<lparr>f_stderr := f_stderr f @ data\<rparr>
      | Stream \<Rightarrow> if f_onStderr f then f\<lparr>f_calls := f_calls f @ [OnStderr data]\<rparr> else f)"

text \<open>
  The timeout callback; \<^verbatim>\<open>accepted\<close> says whether the operating system took the signal.
  Only \<^verbatim>\<open>exec\<close> starts the second timer.
\<close>

definition on_timeout :: "bool \<Rightarrow> flow \<Rightarrow> flow" where
  "on_timeout accepted f =
     (case f_timeoutHandle f of
        Armed d \<Rightarrow>
          f\<lparr>f_timeoutHandle := Fired,
            f_killed := True,
            f_child := child_kill SIGTERM accepted (f_child f),
            f_forceTimer := (case f_kind f of Exec \<Rightarrow> Armed 1000 | Stream \<Rightarrow> Unset)\<rparr>
      | _ \<Rightarrow> f)"

text \<open>The callback of the second timer: \<^verbatim>\<open>if (!child.killed) child.kill('SIGKILL')\<close>.\<close>

definition on_force :: "bool \<Rightarrow> flow \<Rightarrow> flow" where
  "on_force accepted f =
     (case f_forceTimer f of
        Armed d \<Rightarrow>
          (if \<not> child_killed (f_child f)
           then f\<lparr>f_forceTimer := Fired, f_child := child_kill SIGKILL accepted (f_child f)\<rparr>
           else f\<lparr>f_forceTimer := Fired\<rparr>)
      | _ \<Rightarrow> f)"

definition exit_code :: "int option \<Rightarrow> int" where
  "exit_code c = (case c of None \<Rightarrow> 0 | Some n \<Rightarrow> n)"

definition make_result :: "flow \<Rightarrow> int option \<Rightarrow> int \<Rightarrow> ExecResult" where
  "make_result f code now =
     \<lparr>exitCode = exit_code code,
      stdout = trim (f_stdout f),
      stderr = trim (f_stderr f),
      duration = now - f_startTime f,
      killed = f_killed f,
      command = f_command f,
      pid = child_pid (f_child f)\<rparr>"

text \<open>\<^verbatim>\<open>this.props.executionHistory.push(result)\<close>: a new object, its reference appended.\<close>

definition push_history :: "ExecResult \<Rightarrow> world \<Rightarrow> world" where
  "push_history r w =
     w\<lparr>objects := objects w @ [r],
       arrays := (arrays w)[executionHistory (props w) :=
                   arrays w ! executionHistory (props w) @ [length (objects w)]]\<rparr>"

definition on_close :: "nat \<Rightarrow> int option \<Rightarrow> int \<Rightarrow> world \<Rightarrow> world" where
  "on_close fid code now w =
     (let f = flows w ! fid;
          f1 = f\<lparr>f_timeoutHandle := clearTimeout (f_timeoutHandle f)\<rparr>;
          w1 = w\<lparr>props := deregister (child_pid (f_child f)) (props w)\<rparr>
      in case f_kind f of
           Exec \<Rightarrow>
             (let w2 = push_history (make_result f code now) w1
              in w2\<lparr>flows := (flows w2)[fid :=
                         f1\<lparr>f_outcome := settle (f_outcome f) (Resolved (length (objects w)))\<rparr>]\<rparr>)
         | Stream \<Rightarrow>
             (let f2 = (if f_onExit f then f1\<lparr>f_calls := f_calls f @ [OnExit (exit_code code)]\<rparr>
                        else f1);
                  r = \<lparr>sr_exitCode = exit_code code,
                       sr_duration = now - f_startTime f,
                       sr_killed = f_killed f,
                       sr_command = f_command f,
                       sr_pid = child_pid (f_child f)\<rparr>
              in w1\<lparr>flows := (flows w1)[fid :=
                         f2\<lparr>f_outcome := settle (f_outcome f) (ResolvedStream r)\<rparr>]\<rparr>))"

definition on_error :: "nat \<Rightarrow> string \<Rightarrow> world \<Rightarrow> world" where
  "on_error fid msg w =
     (let f = flows w ! fid;
          f1 = f\<lparr>f_timeoutHandle := clearTimeout (f_timeoutHandle f)\<rparr>;
          w1 = w\<lparr>props := deregister (child_pid (f_child f)) (props w)\<rparr>;
          err = (case f_kind f of
                   Exec \<Rightarrow> ''Command execution failed: '' @ f_command f @ [CHR 0x0A]
                             @ ''Error: '' @ msg
                 | Stream \<Rightarrow> msg)
      in w1\<lparr>flows := (flows w1)[fid := f1\<lparr>f_outcome := settle (f_outcome f) (Rejected err)\<rparr>]\<rparr>)"

section \<open>kill, killAll, getHistory, getRunningProcesses\<close>

definition kill :: "nat \<Rightarrow> bool \<Rightarrow> world \<Rightarrow> bool \<times> world" where
  "kill p accepted w =
     (case map_of (runningProcesses (props w)) p of
        Some fid \<Rightarrow>
          (True,
           w\<lparr>flows := (flows w)[fid :=
                  (flows w ! fid)\<lparr>f_child := child_kill SIGTERM accepted (f_child (flows w ! fid))\<rparr>],
             props := (props w)\<lparr>runningProcesses := AList.delete p (runningProcesses (props w))\<rparr>\<rparr>)
      | None \<Rightarrow> (False, w))"

text \<open>
  \<^verbatim>\<open>killAll\<close> kills the process ids it finds registered at its start, one after the other;
  \<^verbatim>\<open>accepted\<close> says for each whether the operating system took the signal.
\<close>

definition killAll :: "(nat \<Rightarrow> bool) \<Rightarrow> world \<Rightarrow> nat \<times> world" where
  "killAll accepted w =
     (let pids = map fst (runningProcesses (props w))
      in (length pids, fold (\<lambda>p w'. snd (kill p (accepted p) w')) pids w))"

text \<open>\<^verbatim>\<open>[...this.props.executionHistory]\<close>: a new array with the same references.\<close>

definition getHistory :: "world \<Rightarrow> addr \<times> world" where
  "getHistory w =
     (length (arrays w),
      w\<lparr>arrays := arrays w @ [arrays w ! executionHistory (props w)]\<rparr>)"

definition getRunningProcesses :: "world \<Rightarrow> nat list" where
  "getRunningProcesses w = map fst (runningProcesses (props w))"

text \<open>What a reader of the array at \<^verbatim>\<open>a\<close> sees: the objects behind its references.\<close>

definition read_array :: "world \<Rightarrow> addr \<Rightarrow> ExecResult list" where
  "read_array w a = map (\<lambda>r. objects w ! r) (arrays w ! a)"

definition history :: "world \<Rightarrow> ExecResult list" where
  "history w = read_array w (executionHistory (props w))"

section \<open>Events\<close>

text \<open>
  What happens to a unit: the calls of its operations, and the events that Node delivers
  to the handlers of a running call. A handler runs only once it is attached.
\<close>

datatype event =
    ExecCall string ExecOptions int
  | ExecSpawn nat "nat option"
  | StreamCall string StreamOptions int "nat option"
  | StdoutData nat string
  | StderrData nat string
  | TimeoutFires nat bool
  | ForceFires nat bool
  | ChildClose nat "int option" int
  | ChildError nat string
  | Kill nat bool
  | KillAll "nat \<Rightarrow> bool"
  | GetHistory

definition in_phase :: "phase \<Rightarrow> nat \<Rightarrow> world \<Rightarrow> bool" where
  "in_phase ph fid w = (fid < length (flows w) \<and> f_phase (flows w ! fid) = ph)"

definition upd_flow :: "nat \<Rightarrow> (flow \<Rightarrow> flow) \<Rightarrow> world \<Rightarrow> world" where
  "upd_flow fid g w = w\<lparr>flows := (flows w)[fid := g (flows w ! fid)]\<rparr>"

fun step :: "event \<Rightarrow> world \<Rightarrow> world" where
  "step (ExecCall cmd options now) w = exec_call cmd options now w"
| "step (ExecSpawn fid p) w = (if in_phase Validated fid w then exec_spawn fid p w else w)"
| "step (StreamCall cmd options now p) w = stream cmd options now p w"
| "step (StdoutData fid data) w = (if in_phase Running fid w then upd_flow fid (on_stdout data) w else w)"
| "step (StderrData fid data) w = (if in_phase Running fid w then upd_flow fid (on_stderr data) w else w)"
| "step (TimeoutFires fid acc) w = (if in_phase Running fid w then upd_flow fid (on_timeout acc) w else w)"
| "step (ForceFires fid acc) w = (if in_phase Running fid w then upd_flow fid (on_force acc) w else w)"
| "step (ChildClose fid code now) w = (if in_phase Running fid w then on_close fid code now w else w)"
| "step (ChildError fid msg) w = (if in_phase Running fid w then on_error fid msg w else w)"
| "step (Kill p acc) w = snd (kill p acc w)"
| "step (KillAll acc) w = snd (killAll acc w)"
| "step GetHistory w = snd (getHistory w)"

definition run :: "event list \<Rightarrow> world \<Rightarrow> world" where
  "run es w = fold step es w"

section \<open>Default arguments\<close>

definition default_config :: ShellExecConfig where
  "default_config =
     \<lparr>cfg_defaultTimeout = None, cfg_defaultCwd = None, cfg_allowedCommands = None,
      cfg_blockedCommands = None, cfg_maxConcurrent = None\<rparr>"

definition no_options :: ExecOptions where
  "no_options = \<lparr>cwd = None, timeout = None, env = None, shell = None, args = None\<rparr>"

definition no_stream_options :: StreamOptions where
  "no_stream_options =
     \<lparr>cwd = None, timeout = None, env = None, shell = None, args = None,
      onStdout = False, onStderr = False, onExit = False\<rparr>"

section \<open>Observations on a run\<close>

text \<open>The data that an event delivers to the standard output or error of call \<^verbatim>\<open>fid\<close>.\<close>

definition chunk_out :: "nat \<Rightarrow> event \<Rightarrow> string" where
  "chunk_out fid e = (case e of StdoutData k d \<Rightarrow> if k = fid then d else [] | _ \<Rightarrow> [])"

definition chunk_err :: "nat \<Rightarrow> event \<Rightarrow> string" where
  "chunk_err fid e = (case e of StderrData k d \<Rightarrow> if k = fid then d else [] | _ \<Rightarrow> [])"

definition stdout_chunks :: "nat \<Rightarrow> event list \<Rightarrow> string" where
  "stdout_chunks fid es = concat (map (chunk_out fid) es)"

definition stderr_chunks :: "nat \<Rightarrow> event list \<Rightarrow> string" where
  "stderr_chunks fid es = concat (map (chunk_err fid) es)"

text \<open>The history array exists and its references point into the object store.\<close>

definition wf :: "world \<Rightarrow> bool" where
  "wf w = (executionHistory (props w) < length (arrays w) \<and>
           list_all (\<lambda>a. a < length (objects w)) (arrays w ! executionHistory (props w)))"

text \<open>The result that an event completes: the close of a running \<^verbatim>\<open>exec\<close> call.\<close>

definition completed :: "event \<Rightarrow> world \<Rightarrow> ExecResult list" where
  "completed e w =
     (case e of
        ChildClose fid code now \<Rightarrow>
          if in_phase Running fid w \<and> f_kind (flows w ! fid) = Exec
          then [make_result (flows w ! fid) code now] else []
      | _ \<Rightarrow> [])"

fun completions :: "event list \<Rightarrow> world \<Rightarrow> ExecResult list" where
  "completions [] w = []"
| "completions (e # es) w = completed e w @ completions es (step e w)"

section \<open>What a caller can do with a returned array\<close>

text \<open>
  A caller holds the address of the array that \<^verbatim>\<open>getHistory\<close> returned and, through it,
  the references to the result objects. \<^verbatim>\<open>ArrayAssign a xs\<close> stands for any change of the
  array at \<^verbatim>\<open>a\<close> (push, pop, sort, splice, index assignment), leaving it with the contents
  \<^verbatim>\<open>xs\<close>; \<^verbatim>\<open>FieldAssign r v\<close> for any assignment to fields of the object at \<^verbatim>\<open>r\<close>, leaving it
  as \<^verbatim>\<open>v\<close>.
\<close>

datatype mutation = ArrayAssign addr "addr list" | FieldAssign addr ExecResult

fun mutate :: "mutation \<Rightarrow> world \<Rightarrow> world" where
  "mutate (ArrayAssign a xs) w = w\<lparr>arrays := (arrays w)[a := xs]\<rparr>"
| "mutate (FieldAssign r v) w = w\<lparr>objects := (objects w)[r := v]\<rparr>"

section \<open>analyzePatterns\<close>

text \<open>
  The result of a JavaScript division: a number, or \<^verbatim>\<open>NaN\<close> or an infinity when the divisor
  is zero.
\<close>

datatype number = Num rat | NaN | PosInfinity | NegInfinity

definition js_div :: "rat \<Rightarrow> rat \<Rightarrow> number" where
  "js_div a b =
     (if b \<noteq> 0 then Num (a / b)
      else if a = 0 then NaN
      else if a > 0 then PosInfinity else NegInfinity)"

record analysis =
  totalExecutions :: nat
  successRate :: number
  averageDuration :: number
  mostUsedCommands :: "string list"
  recentFailures :: "ExecResult list"

text \<open>\<^verbatim>\<open>commandCounts.set(baseCmd, (commandCounts.get(baseCmd) || 0) + 1)\<close>\<close>

definition count_command :: "ExecResult \<Rightarrow> (string \<times> nat) list \<Rightarrow> (string \<times> nat) list" where
  "count_command r m =
     (let baseCmd = hd (str_split CHR '' '' (command r))
      in AList.update baseCmd ((case map_of m baseCmd of None \<Rightarrow> 0 | Some n \<Rightarrow> n) + 1) m)"

text \<open>
  \<^verbatim>\<open>analyzePatterns\<close> of the prototype class, on the results that its history holds. The
  sort by descending count is stable.
\<close>

definition analyzePatterns :: "ExecResult list \<Rightarrow> analysis" where
  "analyzePatterns h =
     (let total = length h;
          successes = length (filter (\<lambda>r. exitCode r = 0) h);
          avgDuration = (if total > 0
                         then js_div (of_int (sum_list (map duration h))) (of_nat total)
                         else Num 0);
          commandCounts = fold count_command h [];
          mostUsed = map fst (take 5 (sort_key (\<lambda>(c, n). - int n) commandCounts));
          failures = filter (\<lambda>r. exitCode r \<noteq> 0) h
      in \<lparr>totalExecutions = total,
          successRate = (if total > 0 then js_div (of_nat successes) (of_nat total) else Num 0),
          averageDuration = avgDuration,
          mostUsedCommands = mostUsed,
          recentFailures = drop (length failures - 5) failures\<rparr>)"

section \<open>The mark of the timeout\<close>

text \<open>A call marked \<^verbatim>\<open>killed\<close> has a fired timeout and a \<^verbatim>\<open>kill('SIGTERM')\<close> on its child.\<close>

definition killed_by_watchdog :: "flow \<Rightarrow> bool" where
  "killed_by_watchdog f =
     (if f_killed f
      then f_timeoutHandle f = Fired \<and> SIGTERM \<in> set (kill_calls (f_child f))
      else True)"

section \<open>Facts about the string functions\<close>

lemma str_split_nonempty: "str_split sep s \<noteq> []"
  by (induction s) (auto split: list.splits)

lemma startsWith_iff: "startsWith s p \<longleftrightarrow> (\<exists>v. s = p @ v)"
  unfolding startsWith_def
  by (metis append_eq_conv_conj append_take_drop_id)

text \<open>\<^const>\<open>str_includes\<close> is the substring test.\<close>

lemma str_includes_iff: "str_includes s p \<longleftrightarrow> (\<exists>u v. s = u @ p @ v)"
proof (induction s)
  case Nil
  then show ?case by auto
next
  case (Cons c cs)
  show ?case
  proof
    assume "str_includes (c # cs) p"
    then consider "startsWith (c # cs) p" | "str_includes cs p" by auto
    then show "\<exists>u v. c # cs = u @ p @ v"
    proof cases
      case 1
      then obtain v where "c # cs = p @ v" using startsWith_iff by blast
      then have "c # cs = [] @ p @ v" by simp
      then show ?thesis by blast
    next
      case 2
      then obtain u v where "cs = u @ p @ v" using Cons.IH by blast
      then have "c # cs = (c # u) @ p @ v" by simp
      then show ?thesis by blast
    qed
  next
    assume "\<exists>u v. c # cs = u @ p @ v"
    then obtain u v where uv: "c # cs = u @ p @ v" by blast
    show "str_includes (c # cs) p"
    proof (cases u)
      case Nil
      then have "startsWith (c # cs) p" using uv startsWith_iff by auto
      then show ?thesis by simp
    next
      case (Cons a u')
      then have "cs = u' @ p @ v" using uv by simp
      then have "str_includes cs p" using Cons.IH by blast
      then show ?thesis by simp
    qed
  qed
qed

section \<open>The block list comes first\<close>

text \<open>
  C3. A command that contains a pattern of the block list as a substring is invalid, and the
  reason and the suggestion name the first pattern of the list that the command contains,
  whatever the allow list, the limit and the running processes are.
\<close>

theorem validate_blocked_pattern:
  assumes "b \<in> set (blockedCommands p)" and "cmd = u @ b @ v"
  shows "\<exists>i < length (blockedCommands p).
           str_includes cmd (blockedCommands p ! i) \<and>
           (\<forall>j < i. \<not> str_includes cmd (blockedCommands p ! j)) \<and>
           (\<forall>al mc rp.
              validate (p\<lparr>allowedCommands := al, maxConcurrent := mc, runningProcesses := rp\<rparr>) cmd =
                \<lparr>valid = False,
                 reason = ''Command contains blocked pattern: '' @ blockedCommands p ! i,
                 suggestions = [''Use safer alternatives to '' @ blockedCommands p ! i]\<rparr>)"
proof -
  have "str_includes cmd b"
    using assms(2) str_includes_iff by blast
  then have "find (str_includes cmd) (blockedCommands p) \<noteq> None"
    using assms(1) by (auto simp: find_None_iff)
  then obtain b' where f: "find (str_includes cmd) (blockedCommands p) = Some b'"
    by blast
  then obtain i where i: "i < length (blockedCommands p)"
      "str_includes cmd (blockedCommands p ! i)"
      "b' = blockedCommands p ! i"
      "\<forall>j < i. \<not> str_includes cmd (blockedCommands p ! j)"
    unfolding find_Some_iff by blast
  have "validate (p\<lparr>allowedCommands := al, maxConcurrent := mc, runningProcesses := rp\<rparr>) cmd =
          \<lparr>valid = False,
           reason = ''Command contains blocked pattern: '' @ blockedCommands p ! i,
           suggestions = [''Use safer alternatives to '' @ blockedCommands p ! i]\<rparr>" for al mc rp
    using f i(3) by (simp add: validate_def)
  then show ?thesis
    using i by blast
qed

theorem validate_blocked_pattern_witness:
  "''sudo'' \<in> set (blockedCommands (props (create ''/'' [] default_config))) \<and>
   ''sudo rm -rf /'' = [] @ ''sudo'' @ '' rm -rf /'' \<and>
   (\<exists>i < length (blockedCommands (props (create ''/'' [] default_config))).
      str_includes ''sudo rm -rf /'' (blockedCommands (props (create ''/'' [] default_config)) ! i) \<and>
      (\<forall>al mc rp.
         validate (props (create ''/'' [] default_config)
                     \<lparr>allowedCommands := al, maxConcurrent := mc, runningProcesses := rp\<rparr>)
           ''sudo rm -rf /'' =
           \<lparr>valid = False,
            reason = ''Command contains blocked pattern: ''
                       @ blockedCommands (props (create ''/'' [] default_config)) ! i,
            suggestions = [''Use safer alternatives to ''
                       @ blockedCommands (props (create ''/'' [] default_config)) ! i]\<rparr>))"
proof -
  have h1: "''sudo'' \<in> set (blockedCommands (props (create ''/'' [] default_config)))"
    by (simp add: create_def default_config_def or_list_def)
  have h2: "''sudo rm -rf /'' = [] @ ''sudo'' @ '' rm -rf /''"
    by simp
  from validate_blocked_pattern [OF h1 h2] h1 h2 show ?thesis
    by blast
qed
section \<open>What a step leaves alone\<close>

lemma child_kills_pid: "child_pid (fold (child_kill s) bs c) = child_pid c"
  by (induction bs arbitrary: c) (simp_all add: child_kill_def)

lemma kill_flows_length: "length (flows (snd (kill p a w))) = length (flows w)"
  by (simp add: kill_def split: option.splits)

text \<open>\<^const>\<open>kill\<close> changes nothing of a call but its child, by calls of \<^const>\<open>child_kill\<close>.\<close>

lemma kill_flow_child:
  "\<exists>bs. flows (snd (kill p a w)) ! fid
          = (flows w ! fid)\<lparr>f_child := fold (child_kill SIGTERM) bs (f_child (flows w ! fid))\<rparr>"
proof (cases "map_of (runningProcesses (props w)) p")
  case None
  then have "flows (snd (kill p a w)) ! fid
      = (flows w ! fid)\<lparr>f_child := fold (child_kill SIGTERM) [] (f_child (flows w ! fid))\<rparr>"
    by (simp add: kill_def)
  then show ?thesis by blast
next
  case (Some k)
  show ?thesis
  proof (cases "k = fid \<and> fid < length (flows w)")
    case True
    then have "flows (snd (kill p a w)) ! fid
        = (flows w ! fid)\<lparr>f_child := fold (child_kill SIGTERM) [a] (f_child (flows w ! fid))\<rparr>"
      using Some by (simp add: kill_def)
    then show ?thesis by blast
  next
    case False
    then have "(flows w)[k := (flows w ! k)\<lparr>f_child := child_kill SIGTERM a (f_child (flows w ! k))\<rparr>] ! fid
        = flows w ! fid"
      by (cases "k = fid") (simp_all add: list_update_beyond)
    then have "flows (snd (kill p a w)) ! fid
        = (flows w ! fid)\<lparr>f_child := fold (child_kill SIGTERM) [] (f_child (flows w ! fid))\<rparr>"
      using Some by (simp add: kill_def)
    then show ?thesis by blast
  qed
qed

lemma kills_flows_length:
  "length (flows (fold (\<lambda>p w'. snd (kill p (acc p) w')) ps w)) = length (flows w)"
  by (induction ps arbitrary: w) (simp_all add: kill_flows_length)

lemma kills_flow_child:
  "\<exists>bs. flows (fold (\<lambda>p w'. snd (kill p (acc p) w')) ps w) ! fid
          = (flows w ! fid)\<lparr>f_child := fold (child_kill SIGTERM) bs (f_child (flows w ! fid))\<rparr>"
proof (induction ps arbitrary: w)
  case Nil
  have "flows w ! fid
      = (flows w ! fid)\<lparr>f_child := fold (child_kill SIGTERM) [] (f_child (flows w ! fid))\<rparr>"
    by simp
  then show ?case by (metis fold_simps(1))
next
  case (Cons p ps)
  let ?w1 = "snd (kill p (acc p) w)"
  obtain b1 where b1: "flows ?w1 ! fid
      = (flows w ! fid)\<lparr>f_child := fold (child_kill SIGTERM) b1 (f_child (flows w ! fid))\<rparr>"
    using kill_flow_child by blast
  obtain b2 where "flows (fold (\<lambda>p w'. snd (kill p (acc p) w')) ps ?w1) ! fid
      = (flows ?w1 ! fid)\<lparr>f_child := fold (child_kill SIGTERM) b2 (f_child (flows ?w1 ! fid))\<rparr>"
    using Cons.IH by blast
  then have "flows (fold (\<lambda>p w'. snd (kill p (acc p) w')) (p # ps) w) ! fid
      = (flows w ! fid)\<lparr>f_child := fold (child_kill SIGTERM) (b1 @ b2) (f_child (flows w ! fid))\<rparr>"
    using b1 by simp
  then show ?case by blast
qed

lemma killAll_flow_child:
  "\<exists>bs. flows (snd (killAll acc w)) ! fid
          = (flows w ! fid)\<lparr>f_child := fold (child_kill SIGTERM) bs (f_child (flows w ! fid))\<rparr>"
  unfolding killAll_def Let_def snd_conv
  using kills_flow_child [of acc "map fst (runningProcesses (props w))" w fid] by blast

lemma killAll_flows_length: "length (flows (snd (killAll acc w))) = length (flows w)"
  by (simp add: killAll_def Let_def kills_flows_length)

text \<open>
  A running \<^verbatim>\<open>exec\<close> call stays running, keeps its command, start time and process id, and
  its buffers grow by exactly the data delivered to it.
\<close>

lemma step_exec_running:
  assumes "in_phase Running fid w" and "f_kind (flows w ! fid) = Exec"
  shows "in_phase Running fid (step e w) \<and> f_kind (flows (step e w) ! fid) = Exec
    \<and> f_command (flows (step e w) ! fid) = f_command (flows w ! fid)
    \<and> f_startTime (flows (step e w) ! fid) = f_startTime (flows w ! fid)
    \<and> child_pid (f_child (flows (step e w) ! fid)) = child_pid (f_child (flows w ! fid))
    \<and> f_stdout (flows (step e w) ! fid) = f_stdout (flows w ! fid) @ chunk_out fid e
    \<and> f_stderr (flows (step e w) ! fid) = f_stderr (flows w ! fid) @ chunk_err fid e"
proof (cases e)
  case (Kill p a)
  obtain bs where "flows (snd (kill p a w)) ! fid
      = (flows w ! fid)\<lparr>f_child := fold (child_kill SIGTERM) bs (f_child (flows w ! fid))\<rparr>"
    using kill_flow_child by blast
  then show ?thesis using assms Kill
    by (simp add: in_phase_def kill_flows_length chunk_out_def chunk_err_def child_kills_pid)
next
  case (KillAll acc)
  obtain bs where "flows (snd (killAll acc w)) ! fid
      = (flows w ! fid)\<lparr>f_child := fold (child_kill SIGTERM) bs (f_child (flows w ! fid))\<rparr>"
    using killAll_flow_child by blast
  then show ?thesis using assms KillAll
    by (simp add: in_phase_def killAll_flows_length chunk_out_def chunk_err_def child_kills_pid)
qed (use assms in \<open>auto simp: in_phase_def exec_call_def exec_spawn_def stream_def upd_flow_def
      on_close_def on_error_def on_stdout_def on_stderr_def on_timeout_def on_force_def
      push_history_def getHistory_def Let_def chunk_out_def chunk_err_def nth_append
      nth_list_update child_kill_def split: flow_kind.splits timer.splits\<close>)

lemma run_exec_running:
  assumes "in_phase Running fid w" and "f_kind (flows w ! fid) = Exec"
  shows "in_phase Running fid (run es w) \<and> f_kind (flows (run es w) ! fid) = Exec
    \<and> f_command (flows (run es w) ! fid) = f_command (flows w ! fid)
    \<and> f_startTime (flows (run es w) ! fid) = f_startTime (flows w ! fid)
    \<and> child_pid (f_child (flows (run es w) ! fid)) = child_pid (f_child (flows w ! fid))
    \<and> f_stdout (flows (run es w) ! fid) = f_stdout (flows w ! fid) @ stdout_chunks fid es
    \<and> f_stderr (flows (run es w) ! fid) = f_stderr (flows w ! fid) @ stderr_chunks fid es"
  using assms
proof (induction es arbitrary: w)
  case Nil
  then show ?case by (simp add: run_def stdout_chunks_def stderr_chunks_def)
next
  case (Cons e es)
  note s = step_exec_running [OF Cons.prems, of e]
  from s have "in_phase Running fid (step e w)" and "f_kind (flows (step e w) ! fid) = Exec"
    by simp_all
  from Cons.IH [OF this] s show ?case
    by (simp add: run_def stdout_chunks_def stderr_chunks_def)
qed

section \<open>The history along a run\<close>

lemma kill_store:
  "arrays (snd (kill p a w)) = arrays w \<and> objects (snd (kill p a w)) = objects w
   \<and> executionHistory (props (snd (kill p a w))) = executionHistory (props w)"
  by (simp add: kill_def split: option.splits)

lemma kills_store:
  "arrays (fold (\<lambda>p w'. snd (kill p (acc p) w')) ps w) = arrays w
   \<and> objects (fold (\<lambda>p w'. snd (kill p (acc p) w')) ps w) = objects w
   \<and> executionHistory (props (fold (\<lambda>p w'. snd (kill p (acc p) w')) ps w))
       = executionHistory (props w)"
  by (induction ps arbitrary: w) (simp_all add: kill_store)

lemma history_cong:
  "arrays w' = arrays w \<Longrightarrow> objects w' = objects w
   \<Longrightarrow> executionHistory (props w') = executionHistory (props w)
   \<Longrightarrow> history w' = history w \<and> wf w' = wf w"
  by (simp add: history_def read_array_def wf_def)

lemma push_history_history:
  assumes "wf w"
  shows "history (push_history r w) = history w @ [r] \<and> wf (push_history r w)"
proof -
  let ?h = "executionHistory (props w)"
  have h: "?h < length (arrays w)" and a: "\<forall>a \<in> set (arrays w ! ?h). a < length (objects w)"
    using assms by (simp_all add: wf_def list_all_iff)
  have "map (\<lambda>a. (objects w @ [r]) ! a) (arrays w ! ?h) = map (\<lambda>a. objects w ! a) (arrays w ! ?h)"
    using a by (simp add: nth_append)
  then have "history (push_history r w) = history w @ [r]"
    using h by (simp add: history_def read_array_def push_history_def)
  moreover have "wf (push_history r w)"
    using h a by (auto simp: wf_def push_history_def list_all_iff)
  ultimately show ?thesis by simp
qed

lemma deregister_history [simp]: "executionHistory (deregister p pr) = executionHistory pr"
  by (simp add: deregister_def)

lemma register_history [simp]: "executionHistory (register p fid pr) = executionHistory pr"
  by (simp add: register_def)

lemma on_close_history:
  assumes "wf w"
  shows "history (on_close fid code now w)
           = history w @ (if f_kind (flows w ! fid) = Exec
                          then [make_result (flows w ! fid) code now] else [])
         \<and> wf (on_close fid code now w)"
proof (cases "f_kind (flows w ! fid)")
  case Exec
  let ?w1 = "w\<lparr>props := deregister (child_pid (f_child (flows w ! fid))) (props w)\<rparr>"
  let ?w2 = "push_history (make_result (flows w ! fid) code now) ?w1"
  have w1: "history ?w1 = history w" "wf ?w1"
    using assms history_cong [of ?w1 w] by simp_all
  have c: "history (on_close fid code now w) = history ?w2
           \<and> wf (on_close fid code now w) = wf ?w2"
    using Exec
    by (intro history_cong) (simp_all add: on_close_def Let_def push_history_def)
  show ?thesis
    using c push_history_history [OF w1(2), of "make_result (flows w ! fid) code now"] w1(1) Exec
    by simp
next
  case Stream
  have "history (on_close fid code now w) = history w
        \<and> wf (on_close fid code now w) = wf w"
    using Stream by (intro history_cong) (simp_all add: on_close_def Let_def)
  then show ?thesis using assms Stream by simp
qed

text \<open>
  A step appends to the history exactly the result it completes, if any; every other event
  leaves the history as it is.
\<close>

lemma step_history:
  assumes "wf w"
  shows "history (step e w) = history w @ completed e w \<and> wf (step e w)"
proof (cases e)
  case (ChildClose fid code now)
  then show ?thesis
    using assms on_close_history [OF assms, of fid code now]
    by (simp add: completed_def)
next
  case (Kill p a)
  have "history (step e w) = history w \<and> wf (step e w) = wf w"
    unfolding Kill by (intro history_cong) (simp_all add: kill_store)
  then show ?thesis using assms Kill by (simp add: completed_def)
next
  case (KillAll acc)
  have "history (step e w) = history w \<and> wf (step e w) = wf w"
    unfolding KillAll by (intro history_cong) (simp_all add: killAll_def Let_def kills_store)
  then show ?thesis using assms KillAll by (simp add: completed_def)
next
  case GetHistory
  have h: "executionHistory (props w) < length (arrays w)"
    using assms by (simp add: wf_def)
  then have "history (step e w) = history w \<and> wf (step e w) = wf w"
    unfolding GetHistory
    by (simp add: getHistory_def history_def read_array_def wf_def nth_append)
  then show ?thesis using assms GetHistory by (simp add: completed_def)
next
  case (ExecCall cmd opts now)
  have "history (step e w) = history w \<and> wf (step e w) = wf w"
    unfolding ExecCall by (intro history_cong) (simp_all add: exec_call_def Let_def)
  then show ?thesis using assms ExecCall by (simp add: completed_def)
next
  case (ExecSpawn fid p)
  have "history (step e w) = history w \<and> wf (step e w) = wf w"
    unfolding ExecSpawn by (intro history_cong) (simp_all add: exec_spawn_def Let_def)
  then show ?thesis using assms ExecSpawn by (simp add: completed_def)
next
  case (StreamCall cmd opts now p)
  have "history (step e w) = history w \<and> wf (step e w) = wf w"
    unfolding StreamCall by (intro history_cong) (simp_all add: stream_def Let_def)
  then show ?thesis using assms StreamCall by (simp add: completed_def)
next
  case (StdoutData fid d)
  have "history (step e w) = history w \<and> wf (step e w) = wf w"
    unfolding StdoutData by (intro history_cong) (simp_all add: upd_flow_def)
  then show ?thesis using assms StdoutData by (simp add: completed_def)
next
  case (StderrData fid d)
  have "history (step e w) = history w \<and> wf (step e w) = wf w"
    unfolding StderrData by (intro history_cong) (simp_all add: upd_flow_def)
  then show ?thesis using assms StderrData by (simp add: completed_def)
next
  case (TimeoutFires fid a)
  have "history (step e w) = history w \<and> wf (step e w) = wf w"
    unfolding TimeoutFires by (intro history_cong) (simp_all add: upd_flow_def)
  then show ?thesis using assms TimeoutFires by (simp add: completed_def)
next
  case (ForceFires fid a)
  have "history (step e w) = history w \<and> wf (step e w) = wf w"
    unfolding ForceFires by (intro history_cong) (simp_all add: upd_flow_def)
  then show ?thesis using assms ForceFires by (simp add: completed_def)
next
  case (ChildError fid msg)
  have "history (step e w) = history w \<and> wf (step e w) = wf w"
    unfolding ChildError by (intro history_cong) (simp_all add: on_error_def Let_def)
  then show ?thesis using assms ChildError by (simp add: completed_def)
qed

lemma wf_create: "wf (create process_cwd penv config)"
  by (simp add: wf_def create_def)

lemma run_history:
  "wf w \<Longrightarrow> history (run es w) = history w @ completions es w \<and> wf (run es w)"
proof (induction es arbitrary: w)
  case Nil
  then show ?case by (simp add: run_def)
next
  case (Cons e es)
  from step_history [OF Cons.prems, of e]
  have s: "history (step e w) = history w @ completed e w" "wf (step e w)" by simp_all
  from Cons.IH [OF s(2)] s(1) show ?case by (simp add: run_def)
qed

section \<open>White space\<close>

lemma dropWhile_split: "\<exists>l. s = l @ dropWhile P s \<and> list_all P l"
proof -
  have "s = takeWhile P s @ dropWhile P s" by simp
  moreover have "list_all P (takeWhile P s)"
    by (simp add: list_all_iff) (meson set_takeWhileD)
  ultimately show ?thesis by blast
qed

text \<open>\<^const>\<open>trim\<close> cuts white space, and only white space, from both ends.\<close>

lemma trim_ends:
  "\<exists>l r. s = l @ trim s @ r \<and> list_all is_whitespace l \<and> list_all is_whitespace r"
proof -
  obtain l where l: "s = l @ trimStart s" "list_all is_whitespace l"
    unfolding trimStart_def using dropWhile_split by blast
  obtain r' where r': "rev (trimStart s) = r' @ dropWhile is_whitespace (rev (trimStart s))"
     "list_all is_whitespace r'"
    using dropWhile_split by blast
  have "trimStart s = rev (dropWhile is_whitespace (rev (trimStart s))) @ rev r'"
    using r'(1) by (metis rev_append rev_rev_ident)
  then have "trimStart s = trim s @ rev r'" by (simp add: trim_def trimEnd_def)
  then have "s = l @ trim s @ rev r'" using l(1) by simp
  moreover have "list_all is_whitespace (rev r')" using r'(2) by (simp add: list_all_iff)
  ultimately show ?thesis using l(2) by blast
qed

lemma trim_no_edge_whitespace:
  assumes "trim s \<noteq> []"
  shows "\<not> is_whitespace (hd (trim s)) \<and> \<not> is_whitespace (last (trim s))"
proof -
  let ?a = "trimStart s"
  let ?d = "dropWhile is_whitespace (rev ?a)"
  have t: "trim s = rev ?d" by (simp add: trim_def trimEnd_def)
  then have dne: "?d \<noteq> []" using assms by simp
  then have "\<not> is_whitespace (hd ?d)" by (simp add: hd_dropWhile)
  then have l: "\<not> is_whitespace (last (trim s))" using t dne by (simp add: last_rev)
  have ane: "?a \<noteq> []" using dne by auto
  then have ha: "\<not> is_whitespace (hd ?a)" by (simp add: trimStart_def hd_dropWhile)
  obtain r where "rev ?a = r @ ?d" using dropWhile_split by blast
  then have "?a = rev ?d @ rev r" by (metis rev_append rev_rev_ident)
  then have "hd ?a = hd (rev ?d)" using dne by (metis hd_append2 rev_is_Nil_conv)
  then show ?thesis using ha l t by simp
qed

section \<open>The captured output\<close>

lemma exec_spawn_flow:
  assumes "in_phase Validated fid w" and "f_kind (flows w ! fid) = Exec"
  shows "in_phase Running fid (step (ExecSpawn fid p) w)
    \<and> f_kind (flows (step (ExecSpawn fid p) w) ! fid) = Exec
    \<and> f_command (flows (step (ExecSpawn fid p) w) ! fid) = f_command (flows w ! fid)
    \<and> f_startTime (flows (step (ExecSpawn fid p) w) ! fid) = f_startTime (flows w ! fid)
    \<and> child_pid (f_child (flows (step (ExecSpawn fid p) w) ! fid)) = p
    \<and> f_stdout (flows (step (ExecSpawn fid p) w) ! fid) = []
    \<and> f_stderr (flows (step (ExecSpawn fid p) w) ! fid) = []"
  using assms by (simp add: in_phase_def exec_spawn_def Let_def new_child_def)

text \<open>
  C8, as amended. When a validated \<^verbatim>\<open>exec\<close> call spawns its child, any events follow, and the
  child closes, the close appends one result to the history whose \<^verbatim>\<open>stdout\<close> is the
  concatenation of the chunks delivered to the call's standard output, in order, with white
  space removed from both ends, and whose \<^verbatim>\<open>stderr\<close> is the same of the chunks delivered to
  its standard error.
\<close>

theorem exec_result_output_trimmed:
  assumes "in_phase Validated fid w" and "f_kind (flows w ! fid) = Exec" and "wf w"
  shows "history (run (ExecSpawn fid p # es @ [ChildClose fid code now]) w)
           = history (run (ExecSpawn fid p # es) w)
             @ [\<lparr>exitCode = exit_code code,
                 stdout = trim (stdout_chunks fid es),
                 stderr = trim (stderr_chunks fid es),
                 duration = now - f_startTime (flows w ! fid),
                 killed = f_killed (flows (run (ExecSpawn fid p # es) w) ! fid),
                 command = f_command (flows w ! fid),
                 pid = p\<rparr>]"
proof -
  let ?w0 = "step (ExecSpawn fid p) w"
  let ?w1 = "run es ?w0"
  note s = exec_spawn_flow [OF assms(1,2), of p]
  from s have r0: "in_phase Running fid ?w0" "f_kind (flows ?w0 ! fid) = Exec"
    by simp_all
  note r = run_exec_running [OF r0, of es]
  have wf1: "wf ?w1"
    using step_history [OF assms(3)] run_history by blast
  have "history (step (ChildClose fid code now) ?w1)
      = history ?w1 @ completed (ChildClose fid code now) ?w1"
    using step_history [OF wf1] by blast
  moreover have "completed (ChildClose fid code now) ?w1
      = [make_result (flows ?w1 ! fid) code now]"
    using r by (simp add: completed_def)
  moreover have "make_result (flows ?w1 ! fid) code now =
      \<lparr>exitCode = exit_code code,
       stdout = trim (stdout_chunks fid es),
       stderr = trim (stderr_chunks fid es),
       duration = now - f_startTime (flows w ! fid),
       killed = f_killed (flows ?w1 ! fid),
       command = f_command (flows w ! fid),
       pid = p\<rparr>"
    using r s by (simp add: make_result_def)
  moreover have "run (ExecSpawn fid p # es @ [ChildClose fid code now]) w
      = step (ChildClose fid code now) ?w1"
    by (simp add: run_def del: step.simps)
  moreover have "run (ExecSpawn fid p # es) w = ?w1"
    by (simp add: run_def del: step.simps)
  ultimately show ?thesis
    by (simp del: step.simps)
qed

theorem exec_result_output_trimmed_witness:
  "in_phase Validated 0 (step (ExecCall ''echo hi'' no_options 100) (create ''/'' [] default_config))
   \<and> f_kind (flows (step (ExecCall ''echo hi'' no_options 100) (create ''/'' [] default_config)) ! 0) = Exec
   \<and> wf (step (ExecCall ''echo hi'' no_options 100) (create ''/'' [] default_config))
   \<and> history (run (ExecSpawn 0 (Some 42)
                     # [StdoutData 0 ''  hi '', StderrData 0 ''warn'', StdoutData 0 [CHR 0x0A]]
                     @ [ChildClose 0 (Some 0) 130])
               (step (ExecCall ''echo hi'' no_options 100) (create ''/'' [] default_config)))
       = [\<lparr>exitCode = 0, stdout = ''hi'', stderr = ''warn'', duration = 30, killed = False,
           command = ''echo hi'', pid = Some 42\<rparr>]"
proof -
  let ?w = "step (ExecCall ''echo hi'' no_options 100) (create ''/'' [] default_config)"
  let ?es = "[StdoutData 0 ''  hi '', StderrData 0 ''warn'', StdoutData 0 [CHR 0x0A]]"
  have h1: "in_phase Validated 0 ?w" by code_simp
  have h2: "f_kind (flows ?w ! 0) = Exec" by code_simp
  have h3: "wf ?w" by code_simp
  have "history (run (ExecSpawn 0 (Some 42) # ?es) ?w) = []"
    by code_simp
  moreover have "trim (stdout_chunks 0 ?es) = ''hi''"
    by code_simp
  moreover have "trim (stderr_chunks 0 ?es) = ''warn''"
    by code_simp
  moreover have "f_killed (flows (run (ExecSpawn 0 (Some 42) # ?es) ?w) ! 0) = False"
    by code_simp
  moreover have "f_startTime (flows ?w ! 0) = 100" by code_simp
  moreover have "f_command (flows ?w ! 0) = ''echo hi''" by code_simp
  moreover note exec_result_output_trimmed [OF h1 h2 h3, of "Some 42" ?es "Some 0" 130]
  ultimately have "history (run (ExecSpawn 0 (Some 42) # ?es @ [ChildClose 0 (Some 0) 130]) ?w)
       = [\<lparr>exitCode = 0, stdout = ''hi'', stderr = ''warn'', duration = 30, killed = False,
           command = ''echo hi'', pid = Some 42\<rparr>]"
    by (simp add: exit_code_def del: step.simps)
  then show ?thesis using h1 h2 h3 by blast
qed

text \<open>
  C8 as stated fails: the white space in front of the output is removed too. The chunks
  \<^verbatim>\<open>"  hi "\<close> and a line feed give the \<^verbatim>\<open>stdout\<close> \<^verbatim>\<open>"hi"\<close>, while trimming the end alone would
  give \<^verbatim>\<open>"  hi"\<close>.
\<close>

theorem exec_result_loses_leading_whitespace:
  "history (run [ExecCall ''echo hi'' no_options 100, ExecSpawn 0 (Some 42),
                 StdoutData 0 ''  hi '', StdoutData 0 [CHR 0x0A], ChildClose 0 (Some 0) 130]
              (create ''/'' [] default_config))
     = [\<lparr>exitCode = 0, stdout = ''hi'', stderr = [], duration = 30, killed = False,
         command = ''echo hi'', pid = Some 42\<rparr>]
   \<and> trimEnd (''  hi '' @ [CHR 0x0A]) = ''  hi''
   \<and> ''hi'' \<noteq> trimEnd (''  hi '' @ [CHR 0x0A])"
  by code_simp

section \<open>The effective options\<close>

lemma exec_call_flow:
  "flows (step (ExecCall cmd opts now) w) ! length (flows w) =
     \<lparr>f_kind = Exec,
      f_phase = (if valid (validate (props w) cmd) then Validated else Aborted),
      f_command = cmd,
      f_startTime = now,
      f_cwd = or_str (cwd opts) (defaultCwd (props w)),
      f_timeout = or_num (timeout opts) (defaultTimeout (props w)),
      f_env = env opts,
      f_shell = shell opts,
      f_onStdout = False, f_onStderr = False, f_onExit = False,
      f_child = new_child None,
      f_stdout = [], f_stderr = [], f_killed = False,
      f_timeoutHandle = Unset, f_forceTimer = Unset,
      f_outcome = (if valid (validate (props w) cmd) then Pending
                   else Rejected (''['' @ unit_id @ ''] Command blocked: ''
                                    @ reason (validate (props w) cmd))),
      f_calls = []\<rparr>
   \<and> length (flows (step (ExecCall cmd opts now) w)) = Suc (length (flows w))
   \<and> props (step (ExecCall cmd opts now) w) = props w
   \<and> spawns (step (ExecCall cmd opts now) w) = spawns w
   \<and> arrays (step (ExecCall cmd opts now) w) = arrays w
   \<and> objects (step (ExecCall cmd opts now) w) = objects w
   \<and> process_env (step (ExecCall cmd opts now) w) = process_env w
   \<and> take (length (flows w)) (flows (step (ExecCall cmd opts now) w)) = flows w"
  by (simp add: exec_call_def Let_def)

text \<open>
  C7, as amended. For a command that passes validation, the working directory handed to
  \<^verbatim>\<open>spawn\<close> is the request's \<^verbatim>\<open>cwd\<close> when one is supplied and is not the empty string, and
  the configured default otherwise; the delay of the timeout is the request's \<^verbatim>\<open>timeout\<close>
  when one is supplied and is not 0, and the configured default otherwise.
\<close>

theorem exec_effective_options:
  assumes "valid (validate (props w) cmd)"
  shows "sp_cwd (last (spawns (run [ExecCall cmd opts now, ExecSpawn (length (flows w)) p] w)))
           = (case cwd opts of
                None \<Rightarrow> defaultCwd (props w)
              | Some c \<Rightarrow> if c = [] then defaultCwd (props w) else c)
       \<and> f_timeoutHandle (flows (run [ExecCall cmd opts now, ExecSpawn (length (flows w)) p] w)
                             ! length (flows w))
           = Armed (case timeout opts of
                      None \<Rightarrow> defaultTimeout (props w)
                    | Some t \<Rightarrow> if t = 0 then defaultTimeout (props w) else t)"
proof -
  let ?w1 = "step (ExecCall cmd opts now) w"
  let ?n = "length (flows w)"
  note c = exec_call_flow [of cmd opts now w]
  have ph: "in_phase Validated ?n ?w1"
    using c assms by (simp add: in_phase_def del: step.simps)
  have r: "run [ExecCall cmd opts now, ExecSpawn ?n p] w = exec_spawn ?n p ?w1"
    using ph by (simp add: run_def del: step.simps) simp
  have "sp_cwd (last (spawns (exec_spawn ?n p ?w1))) = or_str (cwd opts) (defaultCwd (props w))"
    using c by (simp add: exec_spawn_def Let_def spawn_request_def del: step.simps)
  moreover have "f_timeoutHandle (flows (exec_spawn ?n p ?w1) ! ?n)
      = Armed (or_num (timeout opts) (defaultTimeout (props w)))"
    using c by (simp add: exec_spawn_def Let_def del: step.simps)
  ultimately show ?thesis
    unfolding r by (simp add: or_str_def or_num_def del: step.simps)
qed

theorem exec_effective_options_witness:
  "valid (validate (props (create ''/home'' [] default_config)) ''echo hi'')
   \<and> sp_cwd (last (spawns (run [ExecCall ''echo hi'' (no_options\<lparr>cwd := Some ''/tmp'', timeout := Some 5000\<rparr>) 100,
                               ExecSpawn (length (flows (create ''/home'' [] default_config))) (Some 42)]
                            (create ''/home'' [] default_config)))) = ''/tmp''
   \<and> f_timeoutHandle (flows (run [ExecCall ''echo hi'' (no_options\<lparr>cwd := Some ''/tmp'', timeout := Some 5000\<rparr>) 100,
                               ExecSpawn (length (flows (create ''/home'' [] default_config))) (Some 42)]
                            (create ''/home'' [] default_config))
                      ! length (flows (create ''/home'' [] default_config))) = Armed 5000"
proof -
  have h: "valid (validate (props (create ''/home'' [] default_config)) ''echo hi'')"
    by code_simp
  from exec_effective_options [OF h, of "no_options\<lparr>cwd := Some ''/tmp'', timeout := Some 5000\<rparr>" 100 "Some 42"] h
  show ?thesis by (simp add: no_options_def del: step.simps)
qed

text \<open>
  C7 as stated fails for the supplied value 0: \<^verbatim>\<open>options.timeout || defaultTimeout\<close> takes
  the default of 30000 ms.
\<close>

theorem exec_timeout_zero_falls_back:
  "timeout (no_options\<lparr>timeout := Some 0\<rparr>) = Some 0
   \<and> f_timeoutHandle (flows (run [ExecCall ''echo hi'' (no_options\<lparr>timeout := Some 0\<rparr>) 100,
                                   ExecSpawn 0 (Some 42)]
                                (create ''/home'' [] default_config)) ! 0) = Armed 30000
   \<and> Armed 30000 \<noteq> Armed 0"
  by code_simp

section \<open>stream and the history\<close>

lemma getHistory_reads_history:
  assumes "wf w"
  shows "read_array (snd (getHistory w)) (fst (getHistory w)) = history w"
  using assms by (simp add: getHistory_def read_array_def history_def wf_def)

lemma completed_only_exec_close:
  "completed e w \<noteq> [] \<Longrightarrow>
     \<exists>k code t. e = ChildClose k code t \<and> in_phase Running k w \<and> f_kind (flows w ! k) = Exec"
  by (cases e) (simp_all add: completed_def split: if_splits)

text \<open>
  C6. \<^verbatim>\<open>stream\<close> never appends to the history. In a well-formed world the call of
  \<^verbatim>\<open>stream\<close> leaves the history as it is, and so does every event delivered to a \<^verbatim>\<open>stream\<close>
  call: data, the timeout, the close and the error. An event that changes the history is the
  close of a running \<^verbatim>\<open>exec\<close> call. The history is what \<^verbatim>\<open>getHistory\<close> returns.
\<close>

theorem stream_never_appends:
  assumes "wf w"
  shows "history (step (StreamCall cmd opts now p) w) = history w
       \<and> (f_kind (flows w ! fid) = Stream \<longrightarrow>
            history (step (StdoutData fid d) w) = history w
          \<and> history (step (StderrData fid d) w) = history w
          \<and> history (step (TimeoutFires fid a) w) = history w
          \<and> history (step (ForceFires fid a) w) = history w
          \<and> history (step (ChildClose fid code t) w) = history w
          \<and> history (step (ChildError fid msg) w) = history w)
       \<and> (history (step e w) \<noteq> history w \<longrightarrow>
            (\<exists>k code' t'. e = ChildClose k code' t' \<and> in_phase Running k w
               \<and> f_kind (flows w ! k) = Exec))
       \<and> read_array (snd (getHistory w)) (fst (getHistory w)) = history w"
proof -
  have s: "history (step e' w) = history w @ completed e' w" for e'
    using step_history [OF assms] by blast
  have 1: "history (step (StreamCall cmd opts now p) w) = history w"
    unfolding s by (simp add: completed_def)
  have 2: "history (step (StdoutData fid d) w) = history w"
      "history (step (StderrData fid d) w) = history w"
      "history (step (TimeoutFires fid a) w) = history w"
      "history (step (ForceFires fid a) w) = history w"
      "history (step (ChildError fid msg) w) = history w"
    unfolding s by (simp_all add: completed_def)
  have 3: "f_kind (flows w ! fid) = Stream \<Longrightarrow> history (step (ChildClose fid code t) w) = history w"
    unfolding s by (simp add: completed_def)
  have 4: "history (step e w) \<noteq> history w \<Longrightarrow>
            (\<exists>k code' t'. e = ChildClose k code' t' \<and> in_phase Running k w
               \<and> f_kind (flows w ! k) = Exec)"
    using s [of e] completed_only_exec_close [of e w] by auto
  show ?thesis
    using 1 2 3 4 getHistory_reads_history [OF assms] by blast
qed

theorem stream_never_appends_witness:
  "wf (run [ExecCall ''echo hi'' no_options 0, ExecSpawn 0 (Some 41), ChildClose 0 (Some 0) 9,
            StreamCall ''npm test'' no_stream_options 10 (Some 42)] (create ''/'' [] default_config))
   \<and> f_kind (flows (run [ExecCall ''echo hi'' no_options 0, ExecSpawn 0 (Some 41), ChildClose 0 (Some 0) 9,
            StreamCall ''npm test'' no_stream_options 10 (Some 42)] (create ''/'' [] default_config)) ! 1) = Stream
   \<and> history (step (ChildClose 1 (Some 1) 50)
        (run [ExecCall ''echo hi'' no_options 0, ExecSpawn 0 (Some 41), ChildClose 0 (Some 0) 9,
            StreamCall ''npm test'' no_stream_options 10 (Some 42)] (create ''/'' [] default_config)))
      = [\<lparr>exitCode = 0, stdout = [], stderr = [], duration = 9, killed = False,
           command = ''echo hi'', pid = Some 41\<rparr>]"
proof -
  let ?w = "run [ExecCall ''echo hi'' no_options 0, ExecSpawn 0 (Some 41), ChildClose 0 (Some 0) 9,
            StreamCall ''npm test'' no_stream_options 10 (Some 42)] (create ''/'' [] default_config)"
  have h1: "wf ?w" by code_simp
  have h2: "f_kind (flows ?w ! 1) = Stream" by code_simp
  have h3: "history ?w = [\<lparr>exitCode = 0, stdout = [], stderr = [], duration = 9, killed = False,
           command = ''echo hi'', pid = Some 41\<rparr>]" by code_simp
  from stream_never_appends [OF h1, of _ _ _ _ 1 _ _ "Some 1" 50] h2
  have "history (step (ChildClose 1 (Some 1) 50) ?w) = history ?w" by blast
  then show ?thesis using h1 h2 h3 by simp
qed

section \<open>stream does not validate\<close>

text \<open>
  \<^verbatim>\<open>stream\<close> spawns for every command and never reads the validator; \<^verbatim>\<open>exec\<close> rejects an
  invalid command and its continuation never runs.
\<close>

lemma stream_always_spawns:
  "spawns (step (StreamCall cmd opts now p) w)
     = spawns w @ [\<lparr>sp_cmd = hd (str_split CHR '' '' cmd),
                    sp_args = tl (str_split CHR '' '' cmd),
                    sp_cwd = or_str (cwd opts) (defaultCwd (props w)),
                    sp_env = merge_env (process_env w) (env opts),
                    sp_shell = (shell opts \<noteq> Some False)\<rparr>]
   \<and> f_outcome (flows (step (StreamCall cmd opts now p) w) ! length (flows w)) = Pending
   \<and> f_phase (flows (step (StreamCall cmd opts now p) w) ! length (flows w)) = Running
   \<and> props (step (StreamCall cmd opts now p) w) = register p (length (flows w)) (props w)"
  by (simp add: stream_def Let_def spawn_request_def)

lemma exec_invalid_never_spawns:
  assumes "\<not> valid (validate (props w) cmd)"
  shows "f_outcome (flows (step (ExecCall cmd opts now) w) ! length (flows w))
           = Rejected (''[shell-exec] Command blocked: '' @ reason (validate (props w) cmd))
       \<and> step (ExecSpawn (length (flows w)) p) (step (ExecCall cmd opts now) w)
           = step (ExecCall cmd opts now) w
       \<and> spawns (step (ExecCall cmd opts now) w) = spawns w
       \<and> props (step (ExecCall cmd opts now) w) = props w
       \<and> arrays (step (ExecCall cmd opts now) w) = arrays w
       \<and> objects (step (ExecCall cmd opts now) w) = objects w"
  using assms by (simp add: exec_call_def Let_def in_phase_def unit_id_def)

text \<open>
  C1 fails on the code. With the default configuration the validator rejects
  \<^verbatim>\<open>sudo rm -rf /\<close>, and \<^verbatim>\<open>exec\<close> rejects it without a spawn, but \<^verbatim>\<open>stream\<close> spawns it,
  registers the process, and its promise stays pending.
\<close>

theorem stream_spawns_blocked_command:
  "validate (props (create ''/'' [] default_config)) ''sudo rm -rf /''
     = \<lparr>valid = False, reason = ''Command contains blocked pattern: rm -rf'',
        suggestions = [''Use safer alternatives to rm -rf'']\<rparr>
   \<and> spawns (step (StreamCall ''sudo rm -rf /'' no_stream_options 0 (Some 7))
               (create ''/'' [] default_config))
     = [\<lparr>sp_cmd = ''sudo'', sp_args = [''rm'', ''-rf'', ''/''], sp_cwd = ''/'', sp_env = [],
         sp_shell = True\<rparr>]
   \<and> f_outcome (flows (step (StreamCall ''sudo rm -rf /'' no_stream_options 0 (Some 7))
                          (create ''/'' [] default_config)) ! 0) = Pending
   \<and> runningProcesses (props (step (StreamCall ''sudo rm -rf /'' no_stream_options 0 (Some 7))
                          (create ''/'' [] default_config))) = [(7, 0)]
   \<and> spawns (run [ExecCall ''sudo rm -rf /'' no_options 0, ExecSpawn 0 (Some 7)]
               (create ''/'' [] default_config)) = []
   \<and> f_outcome (flows (run [ExecCall ''sudo rm -rf /'' no_options 0, ExecSpawn 0 (Some 7)]
               (create ''/'' [] default_config)) ! 0)
     = Rejected ''[shell-exec] Command blocked: Command contains blocked pattern: rm -rf''"
  by code_simp

section \<open>The limit on running processes\<close>

text \<open>
  C2 fails on the code. With \<^verbatim>\<open>maxConcurrent = 1\<close>, two \<^verbatim>\<open>stream\<close> calls register two
  processes, although the validator would have rejected the second command.
\<close>

theorem stream_exceeds_maxConcurrent:
  "maxConcurrent (props (create ''/'' [] (default_config\<lparr>cfg_maxConcurrent := Some 1\<rparr>))) = 1
   \<and> runningProcesses (props (run [StreamCall ''echo a'' no_stream_options 0 (Some 101),
                                    StreamCall ''echo b'' no_stream_options 1 (Some 102)]
              (create ''/'' [] (default_config\<lparr>cfg_maxConcurrent := Some 1\<rparr>))))
     = [(101, 0), (102, 1)]
   \<and> valid (validate (props (run [StreamCall ''echo a'' no_stream_options 0 (Some 101)]
              (create ''/'' [] (default_config\<lparr>cfg_maxConcurrent := Some 1\<rparr>)))) ''echo b'') = False
   \<and> getRunningProcesses (run [StreamCall ''echo a'' no_stream_options 0 (Some 101),
                                 StreamCall ''echo b'' no_stream_options 1 (Some 102)]
              (create ''/'' [] (default_config\<lparr>cfg_maxConcurrent := Some 1\<rparr>))) = [101, 102]"
  by code_simp

text \<open>
  The check of \<^verbatim>\<open>exec\<close> is not atomic with its spawn either: two calls made before either
  continuation runs both pass the check.
\<close>

lemma exec_calls_before_spawns_exceed_maxConcurrent:
  "runningProcesses (props (run [ExecCall ''echo a'' no_options 0, ExecCall ''echo b'' no_options 0,
                                 ExecSpawn 0 (Some 101), ExecSpawn 1 (Some 102)]
              (create ''/'' [] (default_config\<lparr>cfg_maxConcurrent := Some 1\<rparr>))))
     = [(101, 0), (102, 1)]"
  by code_simp

lemma valid_below_limit:
  "valid (validate pr cmd) \<Longrightarrow> int (length (runningProcesses pr)) < maxConcurrent pr"
  by (simp add: validate_def split: option.splits if_splits)

lemma update_length: "length (AList.update k v al) \<le> Suc (length al)"
  by (induction al) auto

lemma register_length:
  "length (runningProcesses (register p fid pr)) \<le> Suc (length (runningProcesses pr))"
  by (simp add: register_def update_length)

text \<open>
  When the continuation of an \<^verbatim>\<open>exec\<close> call runs right after the call, the check keeps the
  registry within the limit.
\<close>

lemma exec_gate_keeps_bound:
  assumes "int (length (runningProcesses (props w))) \<le> maxConcurrent (props w)"
  shows "int (length (runningProcesses (props
           (run [ExecCall cmd opts now, ExecSpawn (length (flows w)) p] w))))
         \<le> maxConcurrent (props (run [ExecCall cmd opts now, ExecSpawn (length (flows w)) p] w))"
proof (cases "valid (validate (props w) cmd)")
  case True
  let ?w1 = "step (ExecCall cmd opts now) w"
  note c = exec_call_flow [of cmd opts now w]
  have ph: "in_phase Validated (length (flows w)) ?w1"
    using c True by (simp add: in_phase_def del: step.simps)
  have r: "run [ExecCall cmd opts now, ExecSpawn (length (flows w)) p] w
      = exec_spawn (length (flows w)) p ?w1"
    using ph by (simp add: run_def del: step.simps) simp
  have "props (exec_spawn (length (flows w)) p ?w1) = register p (length (flows w)) (props w)"
    using c by (simp add: exec_spawn_def Let_def del: step.simps)
  moreover have "maxConcurrent (register p (length (flows w)) (props w)) = maxConcurrent (props w)"
    by (simp add: register_def)
  ultimately show ?thesis
    unfolding r
    using valid_below_limit [OF True] register_length [of p "length (flows w)" "props w"]
    by simp
next
  case False
  then show ?thesis
    using assms exec_invalid_never_spawns [OF False, of opts now p]
    by (simp add: run_def del: step.simps)
qed

section \<open>The failure paths of exec\<close>

lemma exec_error_handler:
  assumes "in_phase Running fid w" and "f_kind (flows w ! fid) = Exec" and "wf w"
  shows "history (step (ChildError fid msg) w) = history w
       \<and> objects (step (ChildError fid msg) w) = objects w
       \<and> props (step (ChildError fid msg) w)
           = deregister (child_pid (f_child (flows w ! fid))) (props w)
       \<and> f_outcome (flows (step (ChildError fid msg) w) ! fid)
           = settle (f_outcome (flows w ! fid))
               (Rejected (''Command execution failed: '' @ f_command (flows w ! fid) @ [CHR 0x0A]
                            @ ''Error: '' @ msg))"
proof -
  have "history (step (ChildError fid msg) w) = history w"
    using step_history [OF assms(3), of "ChildError fid msg"] by (simp add: completed_def)
  then show ?thesis
    using assms(1,2) by (simp add: on_error_def Let_def in_phase_def)
qed

lemma exec_close_appends_one:
  assumes "in_phase Running fid w" and "f_kind (flows w ! fid) = Exec" and "wf w"
  shows "history (step (ChildClose fid code t) w)
           = history w @ [make_result (flows w ! fid) code t]"
  using step_history [OF assms(3), of "ChildClose fid code t"] assms(1,2)
  by (simp add: completed_def)

text \<open>An error followed by the close of the same child: rejected, and yet in the history.\<close>

lemma exec_error_then_close:
  assumes "in_phase Running fid w" and "f_kind (flows w ! fid) = Exec" and "wf w"
    and "f_outcome (flows w ! fid) = Pending"
  shows "f_outcome (flows (run [ChildError fid msg, ChildClose fid code t] w) ! fid)
           = Rejected (''Command execution failed: '' @ f_command (flows w ! fid) @ [CHR 0x0A]
                            @ ''Error: '' @ msg)
       \<and> length (history (run [ChildError fid msg, ChildClose fid code t] w))
           = Suc (length (history w))"
proof -
  let ?w1 = "step (ChildError fid msg) w"
  note e = exec_error_handler [OF assms(1-3), of msg]
  note r = step_exec_running [OF assms(1,2), of "ChildError fid msg"]
  have wf1: "wf ?w1" using step_history [OF assms(3)] by blast
  from r have r1: "in_phase Running fid ?w1" "f_kind (flows ?w1 ! fid) = Exec" by simp_all
  have h: "history (step (ChildClose fid code t) ?w1)
      = history ?w1 @ [make_result (flows ?w1 ! fid) code t]"
    using exec_close_appends_one [OF r1 wf1] .
  have o: "f_outcome (flows ?w1 ! fid)
      = Rejected (''Command execution failed: '' @ f_command (flows w ! fid) @ [CHR 0x0A]
                            @ ''Error: '' @ msg)"
    using e assms(4) by (simp add: settle_def del: step.simps)
  have "f_outcome (flows (step (ChildClose fid code t) ?w1) ! fid) = f_outcome (flows ?w1 ! fid)"
    using r1 o by (simp add: on_close_def Let_def in_phase_def push_history_def settle_def)
  then show ?thesis
    using h o e by (simp add: run_def del: step.simps)
qed

text \<open>
  C4 fails on the code. Node emits \<^verbatim>\<open>close\<close> after \<^verbatim>\<open>error\<close> when a child fails to spawn,
  and the close handler appends whether or not the promise is already rejected. For
  \<^verbatim>\<open>exec('ls', {cwd: '/nonexistent'})\<close> the spawn fails with no process id: the error handler
  rejects and leaves the history empty, then the close handler, called with the code -2,
  appends a result to the history.
\<close>

theorem spawn_error_then_close_appends:
  "f_outcome (flows (run [ExecCall ''ls'' (no_options\<lparr>cwd := Some ''/nonexistent''\<rparr>) 0,
                          ExecSpawn 0 None,
                          ChildError 0 ''spawn /bin/sh ENOENT'']
                       (create ''/'' [] default_config)) ! 0)
     = Rejected (''Command execution failed: ls'' @ [CHR 0x0A] @ ''Error: spawn /bin/sh ENOENT'')
   \<and> history (run [ExecCall ''ls'' (no_options\<lparr>cwd := Some ''/nonexistent''\<rparr>) 0,
                   ExecSpawn 0 None,
                   ChildError 0 ''spawn /bin/sh ENOENT'']
                (create ''/'' [] default_config)) = []
   \<and> history (run [ExecCall ''ls'' (no_options\<lparr>cwd := Some ''/nonexistent''\<rparr>) 0,
                   ExecSpawn 0 None,
                   ChildError 0 ''spawn /bin/sh ENOENT'',
                   ChildClose 0 (Some (- 2)) 5]
                (create ''/'' [] default_config))
     = [\<lparr>exitCode = - 2, stdout = [], stderr = [], duration = 5, killed = False,
         command = ''ls'', pid = None\<rparr>]
   \<and> f_outcome (flows (run [ExecCall ''ls'' (no_options\<lparr>cwd := Some ''/nonexistent''\<rparr>) 0,
                          ExecSpawn 0 None,
                          ChildError 0 ''spawn /bin/sh ENOENT'',
                          ChildClose 0 (Some (- 2)) 5]
                       (create ''/'' [] default_config)) ! 0)
     = Rejected (''Command execution failed: ls'' @ [CHR 0x0A] @ ''Error: spawn /bin/sh ENOENT'')"
  by code_simp

section \<open>The timeout\<close>

text \<open>The second timer after a timeout whose SIGTERM was accepted: no SIGKILL.\<close>

lemma force_after_accepted_timeout:
  assumes "f_timeoutHandle f = Armed d"
  shows "kill_calls (f_child (on_force a (on_timeout True f))) = kill_calls (f_child f) @ [SIGTERM]
       \<and> f_killed (on_force a (on_timeout True f))"
  using assms by (simp add: on_timeout_def on_force_def child_kill_def split: flow_kind.splits)

lemma stream_timeout_has_no_second_timer:
  assumes "f_kind f = Stream"
  shows "f_forceTimer (on_timeout a f) = f_forceTimer f \<or> f_forceTimer (on_timeout a f) = Unset"
  using assms by (simp add: on_timeout_def split: timer.splits)

text \<open>
  A result is marked \<^verbatim>\<open>killed\<close> only after the timeout fired and called
  \<^verbatim>\<open>kill('SIGTERM')\<close>.
\<close>

lemma child_kills_calls: "set (kill_calls c) \<subseteq> set (kill_calls (fold (child_kill s) bs c))"
proof (induction bs arbitrary: c)
  case Nil
  then show ?case by simp
next
  case (Cons b bs)
  have "set (kill_calls c) \<subseteq> set (kill_calls (child_kill s b c))"
    by (auto simp: child_kill_def)
  also have "\<dots> \<subseteq> set (kill_calls (fold (child_kill s) bs (child_kill s b c)))"
    using Cons.IH .
  finally show ?case by simp
qed

lemma killed_by_watchdog_kills:
  "killed_by_watchdog f \<Longrightarrow> killed_by_watchdog (f\<lparr>f_child := fold (child_kill s) bs (f_child f)\<rparr>)"
  using child_kills_calls [of "f_child f" s bs] by (auto simp: killed_by_watchdog_def)

lemma step_killed_by_watchdog:
  assumes "\<forall>k < length (flows w). killed_by_watchdog (flows w ! k)"
  shows "\<forall>k < length (flows (step e w)). killed_by_watchdog (flows (step e w) ! k)"
proof (cases e)
  case (Kill p a)
  show ?thesis
  proof (intro allI impI)
    fix k assume "k < length (flows (step e w))"
    then have k: "k < length (flows w)" using Kill by (simp add: kill_flows_length)
    obtain bs where "flows (snd (kill p a w)) ! k
      = (flows w ! k)\<lparr>f_child := fold (child_kill SIGTERM) bs (f_child (flows w ! k))\<rparr>"
      using kill_flow_child by blast
    then show "killed_by_watchdog (flows (step e w) ! k)"
      using assms k Kill killed_by_watchdog_kills by simp
  qed
next
  case (KillAll acc)
  show ?thesis
  proof (intro allI impI)
    fix k assume "k < length (flows (step e w))"
    then have k: "k < length (flows w)" using KillAll by (simp add: killAll_flows_length)
    obtain bs where "flows (snd (killAll acc w)) ! k
      = (flows w ! k)\<lparr>f_child := fold (child_kill SIGTERM) bs (f_child (flows w ! k))\<rparr>"
      using killAll_flow_child by blast
    then show "killed_by_watchdog (flows (step e w) ! k)"
      using assms k KillAll killed_by_watchdog_kills by simp
  qed
qed (use assms in \<open>auto simp: killed_by_watchdog_def in_phase_def exec_call_def exec_spawn_def
      stream_def upd_flow_def on_close_def on_error_def on_stdout_def on_stderr_def on_timeout_def
      on_force_def push_history_def getHistory_def Let_def nth_append nth_list_update
      child_kill_def new_child_def clearTimeout_def
      split: flow_kind.splits timer.splits if_splits\<close>)

lemma run_killed_by_watchdog:
  "\<forall>k < length (flows (run es (create process_cwd penv config))).
     killed_by_watchdog (flows (run es (create process_cwd penv config)) ! k)"
proof -
  have "(\<forall>k < length (flows w). killed_by_watchdog (flows w ! k))
      \<Longrightarrow> (\<forall>k < length (flows (run es w)). killed_by_watchdog (flows (run es w) ! k))" for w
  proof (induction es arbitrary: w)
    case Nil
    then show ?case by (simp add: run_def)
  next
    case (Cons e es)
    from Cons.IH [OF step_killed_by_watchdog [OF Cons.prems, of e]]
    show ?case by (simp add: run_def del: step.simps)
  qed
  then show ?thesis by (simp add: create_def)
qed

text \<open>Once the child has closed, the timeout does nothing.\<close>

lemma timeout_after_close:
  assumes "in_phase Running fid w"
  shows "step (TimeoutFires fid a) (step (ChildClose fid code t) w) = step (ChildClose fid code t) w"
  using assms
  by (auto simp: in_phase_def on_close_def Let_def push_history_def upd_flow_def on_timeout_def
      clearTimeout_def split: flow_kind.splits timer.splits)

text \<open>
  C5 fails on the code. The second timer sends SIGKILL only if \<^verbatim>\<open>child.killed\<close> is false,
  and Node sets \<^verbatim>\<open>child.killed\<close> as soon as \<^verbatim>\<open>kill('SIGTERM')\<close> has delivered its signal. A
  process that ignores SIGTERM: the timeout fires, the signal is accepted, the second timer
  fires 1000 ms later, and the only signal sent is SIGTERM; the call is still pending and
  the process still registered. A \<^verbatim>\<open>stream\<close> call has no second timer at all.
\<close>

theorem timeout_never_escalates:
  "kill_calls (f_child (flows (run [ExecCall ''node trap.js'' (no_options\<lparr>timeout := Some 100\<rparr>) 0,
                                    ExecSpawn 0 (Some 4242),
                                    TimeoutFires 0 True,
                                    ForceFires 0 True]
                                 (create ''/'' [] default_config)) ! 0)) = [SIGTERM]
   \<and> f_forceTimer (flows (run [ExecCall ''node trap.js'' (no_options\<lparr>timeout := Some 100\<rparr>) 0,
                                    ExecSpawn 0 (Some 4242),
                                    TimeoutFires 0 True,
                                    ForceFires 0 True]
                                 (create ''/'' [] default_config)) ! 0) = Fired
   \<and> f_outcome (flows (run [ExecCall ''node trap.js'' (no_options\<lparr>timeout := Some 100\<rparr>) 0,
                                    ExecSpawn 0 (Some 4242),
                                    TimeoutFires 0 True,
                                    ForceFires 0 True]
                                 (create ''/'' [] default_config)) ! 0) = Pending
   \<and> getRunningProcesses (run [ExecCall ''node trap.js'' (no_options\<lparr>timeout := Some 100\<rparr>) 0,
                                    ExecSpawn 0 (Some 4242),
                                    TimeoutFires 0 True,
                                    ForceFires 0 True]
                                 (create ''/'' [] default_config)) = [4242]
   \<and> kill_calls (f_child (flows (run [StreamCall ''node trap.js'' (no_stream_options\<lparr>timeout := Some 100\<rparr>) 0 (Some 4242),
                                    TimeoutFires 0 True,
                                    ForceFires 0 True]
                                 (create ''/'' [] default_config)) ! 0)) = [SIGTERM]
   \<and> f_forceTimer (flows (run [StreamCall ''node trap.js'' (no_stream_options\<lparr>timeout := Some 100\<rparr>) 0 (Some 4242),
                                    TimeoutFires 0 True]
                                 (create ''/'' [] default_config)) ! 0) = Unset"
  by code_simp

section \<open>The array that getHistory returns\<close>

lemma array_assigns_frame:
  assumes "a \<noteq> h"
  shows "arrays (fold (\<lambda>xs. mutate (ArrayAssign a xs)) xss w) ! h = arrays w ! h
       \<and> length (arrays (fold (\<lambda>xs. mutate (ArrayAssign a xs)) xss w)) = length (arrays w)
       \<and> objects (fold (\<lambda>xs. mutate (ArrayAssign a xs)) xss w) = objects w
       \<and> props (fold (\<lambda>xs. mutate (ArrayAssign a xs)) xss w) = props w"
  using assms by (induction xss arbitrary: w) simp_all

lemma history_create: "history (create process_cwd penv config) = []"
  by (simp add: history_def read_array_def create_def)

text \<open>
  C9, as amended. In every world reached from \<^verbatim>\<open>create\<close>, \<^verbatim>\<open>getHistory\<close> returns a new array,
  different from the stored one, that holds the results completed so far in the order of
  their completion; and whatever a caller then does to the returned array itself, any
  number of times, the stored history and what a later \<^verbatim>\<open>getHistory\<close> returns stay the same.
\<close>

theorem getHistory_returns_copy:
  assumes "w = run es (create process_cwd penv config)"
    and "w2 = fold (\<lambda>xs. mutate (ArrayAssign (fst (getHistory w)) xs)) xss (snd (getHistory w))"
  shows "read_array (snd (getHistory w)) (fst (getHistory w))
           = completions es (create process_cwd penv config)
       \<and> fst (getHistory w) \<noteq> executionHistory (props w)
       \<and> history w2 = history w
       \<and> read_array (snd (getHistory w2)) (fst (getHistory w2))
           = read_array (snd (getHistory w)) (fst (getHistory w))"
proof -
  let ?h = "executionHistory (props w)"
  let ?a = "fst (getHistory w)"
  let ?w1 = "snd (getHistory w)"
  have wfw: "wf w" and hw: "history w = completions es (create process_cwd penv config)"
    using run_history [OF wf_create, of es process_cwd penv config] assms(1)
    by (simp_all add: history_create)
  have h: "?h < length (arrays w)" using wfw by (simp add: wf_def)
  then have ne: "?a \<noteq> ?h" by (simp add: getHistory_def)
  have r1: "read_array ?w1 ?a = history w"
    using getHistory_reads_history [OF wfw] .
  have w1: "arrays ?w1 ! ?h = arrays w ! ?h" "objects ?w1 = objects w" "props ?w1 = props w"
      "length (arrays ?w1) = Suc (length (arrays w))"
    using h by (simp_all add: getHistory_def nth_append)
  note f = array_assigns_frame [OF ne, of xss ?w1]
  have w2: "arrays w2 ! ?h = arrays w ! ?h" "objects w2 = objects w" "props w2 = props w"
      "length (arrays w2) = Suc (length (arrays w))"
    using f w1 assms(2) by simp_all
  have h2: "history w2 = history w"
    using w2 by (simp add: history_def read_array_def)
  have "wf w2"
    using wfw w2 by (simp add: wf_def)
  then have "read_array (snd (getHistory w2)) (fst (getHistory w2)) = history w2"
    using getHistory_reads_history by blast
  then show ?thesis
    using r1 hw ne h2 by simp
qed

theorem getHistory_returns_copy_witness:
  "read_array (snd (getHistory (run [ExecCall ''echo hi'' no_options 0, ExecSpawn 0 (Some 42),
                                      ChildClose 0 (Some 0) 30] (create ''/'' [] default_config))))
              (fst (getHistory (run [ExecCall ''echo hi'' no_options 0, ExecSpawn 0 (Some 42),
                                      ChildClose 0 (Some 0) 30] (create ''/'' [] default_config))))
     = completions [ExecCall ''echo hi'' no_options 0, ExecSpawn 0 (Some 42),
                    ChildClose 0 (Some 0) 30] (create ''/'' [] default_config)
   \<and> history (fold (\<lambda>xs. mutate (ArrayAssign
                       (fst (getHistory (run [ExecCall ''echo hi'' no_options 0, ExecSpawn 0 (Some 42),
                                      ChildClose 0 (Some 0) 30] (create ''/'' [] default_config)))) xs))
                 [[], [0, 0], [7]]
                 (snd (getHistory (run [ExecCall ''echo hi'' no_options 0, ExecSpawn 0 (Some 42),
                                      ChildClose 0 (Some 0) 30] (create ''/'' [] default_config)))))
     = history (run [ExecCall ''echo hi'' no_options 0, ExecSpawn 0 (Some 42),
                     ChildClose 0 (Some 0) 30] (create ''/'' [] default_config))"
  using getHistory_returns_copy [OF refl refl, of "[ExecCall ''echo hi'' no_options 0, ExecSpawn 0 (Some 42),
                                      ChildClose 0 (Some 0) 30]" "''/''" "[]" default_config "[[], [0, 0], [7]]"]
  by blast

text \<open>
  C9 as stated fails: the copy is shallow. The returned array holds references to the stored
  result objects, and an assignment to the fields of its first element shows in what the
  next \<^verbatim>\<open>getHistory\<close> returns.
\<close>

theorem getHistory_shares_result_objects:
  "arrays (snd (getHistory (run [ExecCall ''echo hi'' no_options 0, ExecSpawn 0 (Some 42),
                                 ChildClose 0 (Some 0) 30] (create ''/'' [] default_config))))
     ! fst (getHistory (run [ExecCall ''echo hi'' no_options 0, ExecSpawn 0 (Some 42),
                             ChildClose 0 (Some 0) 30] (create ''/'' [] default_config))) = [0]
   \<and> history (run [ExecCall ''echo hi'' no_options 0, ExecSpawn 0 (Some 42),
                   ChildClose 0 (Some 0) 30] (create ''/'' [] default_config))
     = [\<lparr>exitCode = 0, stdout = [], stderr = [], duration = 30, killed = False,
         command = ''echo hi'', pid = Some 42\<rparr>]
   \<and> read_array
        (snd (getHistory (mutate (FieldAssign 0
                \<lparr>exitCode = 99, stdout = ''forged'', stderr = [], duration = 30, killed = False,
                 command = ''echo hi'', pid = Some 42\<rparr>)
           (snd (getHistory (run [ExecCall ''echo hi'' no_options 0, ExecSpawn 0 (Some 42),
                                  ChildClose 0 (Some 0) 30] (create ''/'' [] default_config)))))))
        (fst (getHistory (mutate (FieldAssign 0
                \<lparr>exitCode = 99, stdout = ''forged'', stderr = [], duration = 30, killed = False,
                 command = ''echo hi'', pid = Some 42\<rparr>)
           (snd (getHistory (run [ExecCall ''echo hi'' no_options 0, ExecSpawn 0 (Some 42),
                                  ChildClose 0 (Some 0) 30] (create ''/'' [] default_config)))))))
     = [\<lparr>exitCode = 99, stdout = ''forged'', stderr = [], duration = 30, killed = False,
         command = ''echo hi'', pid = Some 42\<rparr>]"
  by code_simp

section \<open>The divisions of analyzePatterns\<close>

text \<open>
  C10. On an empty history \<^verbatim>\<open>analyzePatterns\<close> returns the total 0, the success rate 0 and
  the average duration 0; and on every history both quotients are numbers, never
  \<^verbatim>\<open>NaN\<close> or an infinity: no division has a zero divisor.
\<close>

theorem analyzePatterns_empty:
  "analyzePatterns [] =
     \<lparr>totalExecutions = 0, successRate = Num 0, averageDuration = Num 0,
      mostUsedCommands = [], recentFailures = []\<rparr>
   \<and> (\<forall>h. \<exists>q. successRate (analyzePatterns h) = Num q)
   \<and> (\<forall>h. \<exists>q. averageDuration (analyzePatterns h) = Num q)"
proof -
  have "analyzePatterns [] =
     \<lparr>totalExecutions = 0, successRate = Num 0, averageDuration = Num 0,
      mostUsedCommands = [], recentFailures = []\<rparr>"
    by (simp add: analyzePatterns_def)
  moreover have "\<exists>q. successRate (analyzePatterns h) = Num q" for h
    by (cases h) (simp_all add: analyzePatterns_def Let_def js_div_def)
  moreover have "\<exists>q. averageDuration (analyzePatterns h) = Num q" for h
    by (cases h) (simp_all add: analyzePatterns_def Let_def js_div_def)
  ultimately show ?thesis by blast
qed

lemma analyzePatterns_example:
  "analyzePatterns
     [\<lparr>exitCode = 0, stdout = [], stderr = [], duration = 30, killed = False, command = ''echo hi'', pid = Some 1\<rparr>,
      \<lparr>exitCode = 1, stdout = [], stderr = [], duration = 10, killed = False, command = ''npm test'', pid = Some 2\<rparr>,
      \<lparr>exitCode = 0, stdout = [], stderr = [], duration = 50, killed = False, command = ''npm run build'', pid = Some 3\<rparr>]
   = \<lparr>totalExecutions = 3, successRate = Num (2 / 3), averageDuration = Num 30,
      mostUsedCommands = [''npm'', ''echo''],
      recentFailures = [\<lparr>exitCode = 1, stdout = [], stderr = [], duration = 10, killed = False, command = ''npm test'', pid = Some 2\<rparr>]\<rparr>"
  by code_simp

end
